theory Spec2Isabelle
  imports Complex_Main
begin

section \<open>The number type of the program\<close>

text \<open>
  The program computes with the \<open>number\<close> type of TypeScript. A value is a finite
  number, one of the two infinities, or NaN. Finite values are modelled as exact reals:
  rounding, overflow and the sign of zero are outside this model (a zero is the
  positive zero). Operators never raise; a division by zero yields an infinity or NaN,
  and that is what the operators below return.

  This is the reading of the program in exact arithmetic. The reading in double
  precision, with the rounding and the overflow of each operation, follows the
  calculator below; where the two readings part, the statements say which one they
  are about.
\<close>

datatype number = Num real | PosInf | NegInf | NaN

text \<open>Unary minus and the operators \<open>+\<close>, \<open>-\<close>, \<open>*\<close>, \<open>/\<close> and \<open>===\<close>.\<close>

fun num_neg :: "number \<Rightarrow> number" where
  "num_neg (Num a) = Num (- a)"
| "num_neg PosInf = NegInf"
| "num_neg NegInf = PosInf"
| "num_neg NaN = NaN"

fun num_add :: "number \<Rightarrow> number \<Rightarrow> number" where
  "num_add NaN _ = NaN"
| "num_add _ NaN = NaN"
| "num_add PosInf NegInf = NaN"
| "num_add NegInf PosInf = NaN"
| "num_add PosInf _ = PosInf"
| "num_add _ PosInf = PosInf"
| "num_add NegInf _ = NegInf"
| "num_add _ NegInf = NegInf"
| "num_add (Num a) (Num b) = Num (a + b)"

definition num_sub :: "number \<Rightarrow> number \<Rightarrow> number" where
  "num_sub a b = num_add a (num_neg b)"

fun num_mul :: "number \<Rightarrow> number \<Rightarrow> number" where
  "num_mul NaN _ = NaN"
| "num_mul _ NaN = NaN"
| "num_mul PosInf PosInf = PosInf"
| "num_mul PosInf NegInf = NegInf"
| "num_mul NegInf PosInf = NegInf"
| "num_mul NegInf NegInf = PosInf"
| "num_mul PosInf (Num b) = (if b = 0 then NaN else if 0 < b then PosInf else NegInf)"
| "num_mul NegInf (Num b) = (if b = 0 then NaN else if 0 < b then NegInf else PosInf)"
| "num_mul (Num a) PosInf = (if a = 0 then NaN else if 0 < a then PosInf else NegInf)"
| "num_mul (Num a) NegInf = (if a = 0 then NaN else if 0 < a then NegInf else PosInf)"
| "num_mul (Num a) (Num b) = Num (a * b)"

fun num_div :: "number \<Rightarrow> number \<Rightarrow> number" where
  "num_div NaN _ = NaN"
| "num_div _ NaN = NaN"
| "num_div PosInf PosInf = NaN"
| "num_div PosInf NegInf = NaN"
| "num_div NegInf PosInf = NaN"
| "num_div NegInf NegInf = NaN"
| "num_div PosInf (Num b) = (if 0 \<le> b then PosInf else NegInf)"
| "num_div NegInf (Num b) = (if 0 \<le> b then NegInf else PosInf)"
| "num_div (Num a) PosInf = Num 0"
| "num_div (Num a) NegInf = Num 0"
| "num_div (Num a) (Num b) =
     (if b = 0 then (if a = 0 then NaN else if 0 < a then PosInf else NegInf)
      else Num (a / b))"

definition strict_eq :: "number \<Rightarrow> number \<Rightarrow> bool" where
  "strict_eq a b = (a \<noteq> NaN \<and> a = b)"

text \<open>\<open>Math.max\<close> of two arguments: NaN if either is NaN, else the larger.\<close>

fun Math_max :: "number \<Rightarrow> number \<Rightarrow> number" where
  "Math_max NaN _ = NaN"
| "Math_max _ NaN = NaN"
| "Math_max PosInf _ = PosInf"
| "Math_max _ PosInf = PosInf"
| "Math_max NegInf b = b"
| "Math_max a NegInf = a"
| "Math_max (Num a) (Num b) = Num (max a b)"

text \<open>
  \<open>Math.pow\<close>, in the case order of the language definition: the exponent NaN, the
  exponent zero, the base NaN, the infinite bases, the base zero, the infinite
  exponents; then a negative base with a fractional exponent is NaN and everything
  else is the real power.
\<close>

definition integral :: "real \<Rightarrow> bool" where
  "integral e = (of_int \<lfloor>e\<rfloor> = e)"

definition odd_integral :: "real \<Rightarrow> bool" where
  "odd_integral e = (integral e \<and> odd \<lfloor>e\<rfloor>)"

definition pow_finite :: "real \<Rightarrow> real \<Rightarrow> number" where
  "pow_finite b e =
     (if e = 0 then Num 1
      else if b = 0 then (if 0 < e then Num 0 else PosInf)
      else if b < 0 \<and> \<not> integral e then NaN
      else if 0 < b then Num (b powr e)
      else Num (b powi \<lfloor>e\<rfloor>))"

fun Math_pow :: "number \<Rightarrow> number \<Rightarrow> number" where
  "Math_pow _ NaN = NaN"
| "Math_pow b (Num e) =
     (if e = 0 then Num 1
      else case b of
        NaN \<Rightarrow> NaN
      | PosInf \<Rightarrow> (if 0 < e then PosInf else Num 0)
      | NegInf \<Rightarrow> (if 0 < e then (if odd_integral e then NegInf else PosInf) else Num 0)
      | Num x \<Rightarrow> pow_finite x e)"
| "Math_pow NaN _ = NaN"
| "Math_pow PosInf PosInf = PosInf"
| "Math_pow PosInf NegInf = Num 0"
| "Math_pow NegInf PosInf = PosInf"
| "Math_pow NegInf NegInf = Num 0"
| "Math_pow (Num x) PosInf =
     (if x = 0 then Num 0
      else if 1 < \<bar>x\<bar> then PosInf else if \<bar>x\<bar> = 1 then NaN else Num 0)"
| "Math_pow (Num x) NegInf =
     (if x = 0 then PosInf
      else if 1 < \<bar>x\<bar> then Num 0 else if \<bar>x\<bar> = 1 then NaN else PosInf)"

section \<open>The calculator\<close>

text \<open>
  \<open>calculateMonthlyPrincipalAndInterest\<close> of \<open>App.tsx\<close>. Its local constants
  \<open>loanAmount\<close>, \<open>monthlyRate\<close>, \<open>n\<close>, \<open>numerator\<close> and \<open>denominator\<close> are
  definitions of their own, so that statements can speak about them.
\<close>

definition loanAmount :: "number \<Rightarrow> number \<Rightarrow> number" where
  "loanAmount purchasePrice downPayment = Math_max (num_sub purchasePrice downPayment) (Num 0)"

definition monthlyRate :: "number \<Rightarrow> number" where
  "monthlyRate annualRatePercent = num_div (num_div annualRatePercent (Num 100)) (Num 12)"

definition installments :: "number \<Rightarrow> number" where
  "installments years = num_mul years (Num 12)"

definition numerator :: "number \<Rightarrow> number \<Rightarrow> number" where
  "numerator r n = num_mul r (Math_pow (num_add (Num 1) r) n)"

definition denominator :: "number \<Rightarrow> number \<Rightarrow> number" where
  "denominator r n = num_sub (Math_pow (num_add (Num 1) r) n) (Num 1)"

definition calculateMonthlyPrincipalAndInterest ::
  "number \<Rightarrow> number \<Rightarrow> number \<Rightarrow> number \<Rightarrow> number" where
  "calculateMonthlyPrincipalAndInterest purchasePrice downPayment annualRatePercent years =
     (let la = loanAmount purchasePrice downPayment in
      if strict_eq la (Num 0) then Num 0
      else
        let r = monthlyRate annualRatePercent;
            n = installments years
        in if strict_eq r (Num 0) then num_div la n
           else num_mul la (num_div (numerator r n) (denominator r n)))"

section \<open>The calculator in double precision\<close>

text \<open>
  The definitions above read the arithmetic of the program as exact. The program
  itself computes in IEEE 754 binary64: every operation returns the double nearest to
  the exact result, ties to the even significand, and a result of magnitude
  \<open>2 ^ 1024\<close> or more is an infinity. \<open>round64\<close> is that rounding: the exponent of
  \<open>x\<close> is \<open>\<lfloor>log 2 \<bar>x\<bar>\<rfloor>\<close>, at least \<open>- 1022\<close> (below it the doubles are subnormal),
  the spacing of the doubles around \<open>x\<close> is \<open>2 powi (exponent - 52)\<close>, and \<open>x\<close> goes
  to the nearest multiple of the spacing. The sign of zero is not modelled.
\<close>

definition round_half_even :: "real \<Rightarrow> int" where
  "round_half_even z =
     (let f = \<lfloor>z\<rfloor>; d = z - of_int f
      in if d < 1 / 2 then f else if 1 / 2 < d then f + 1 else if even f then f else f + 1)"

definition binade :: "real \<Rightarrow> int" where
  "binade x = max \<lfloor>log 2 \<bar>x\<bar>\<rfloor> (- 1022)"

definition round64 :: "real \<Rightarrow> number" where
  "round64 x =
     (if x = 0 then Num 0
      else
        let q = 2 powi (binade x - 52);
            y = of_int (round_half_even (x / q)) * q
        in if 2 ^ 1024 \<le> \<bar>y\<bar> then (if 0 < y then PosInf else NegInf) else Num y)"

fun rnd :: "number \<Rightarrow> number" where
  "rnd (Num x) = round64 x"
| "rnd PosInf = PosInf"
| "rnd NegInf = NegInf"
| "rnd NaN = NaN"

text \<open>
  The operators of the program in double precision: the exact operator, then the
  rounding. \<open>Math.pow\<close> is taken as correctly rounded; the language leaves its last
  digit to the implementation, and the statements below use of it only that a power
  which is a double is returned as it is (\<open>1 ^ 360\<close>, \<open>2 ^ 360\<close>), that a power of
  \<open>2 ^ 1024\<close> or more is \<open>Infinity\<close>, and that a power of a base of at least 1 to
  an exponent of at least 1 is at least 1. \<open>Math.max\<close> and \<open>===\<close> do not round.
  \<open>num_le\<close> is the operator \<open><=\<close>.
\<close>

definition f64_add :: "number \<Rightarrow> number \<Rightarrow> number" where
  "f64_add a b = rnd (num_add a b)"

definition f64_sub :: "number \<Rightarrow> number \<Rightarrow> number" where
  "f64_sub a b = rnd (num_sub a b)"

definition f64_mul :: "number \<Rightarrow> number \<Rightarrow> number" where
  "f64_mul a b = rnd (num_mul a b)"

definition f64_div :: "number \<Rightarrow> number \<Rightarrow> number" where
  "f64_div a b = rnd (num_div a b)"

definition f64_pow :: "number \<Rightarrow> number \<Rightarrow> number" where
  "f64_pow a b = rnd (Math_pow a b)"

fun num_le :: "number \<Rightarrow> number \<Rightarrow> bool" where
  "num_le NaN _ = False"
| "num_le _ NaN = False"
| "num_le NegInf _ = True"
| "num_le _ PosInf = True"
| "num_le PosInf _ = False"
| "num_le _ NegInf = False"
| "num_le (Num a) (Num b) = (a \<le> b)"

text \<open>
  \<open>calculateMonthlyPrincipalAndInterest\<close> of \<open>App.tsx\<close> with these operators, line
  for line as above.
\<close>

definition loanAmount64 :: "number \<Rightarrow> number \<Rightarrow> number" where
  "loanAmount64 purchasePrice downPayment = Math_max (f64_sub purchasePrice downPayment) (Num 0)"

definition monthlyRate64 :: "number \<Rightarrow> number" where
  "monthlyRate64 annualRatePercent = f64_div (f64_div annualRatePercent (Num 100)) (Num 12)"

definition installments64 :: "number \<Rightarrow> number" where
  "installments64 years = f64_mul years (Num 12)"

definition numerator64 :: "number \<Rightarrow> number \<Rightarrow> number" where
  "numerator64 r n = f64_mul r (f64_pow (f64_add (Num 1) r) n)"

definition denominator64 :: "number \<Rightarrow> number \<Rightarrow> number" where
  "denominator64 r n = f64_sub (f64_pow (f64_add (Num 1) r) n) (Num 1)"

definition calculateMonthlyPrincipalAndInterest64 ::
  "number \<Rightarrow> number \<Rightarrow> number \<Rightarrow> number \<Rightarrow> number" where
  "calculateMonthlyPrincipalAndInterest64 purchasePrice downPayment annualRatePercent years =
     (let la = loanAmount64 purchasePrice downPayment in
      if strict_eq la (Num 0) then Num 0
      else
        let r = monthlyRate64 annualRatePercent;
            n = installments64 years
        in if strict_eq r (Num 0) then f64_div la n
           else f64_mul la (f64_div (numerator64 r n) (denominator64 r n)))"

section \<open>The loan-term selection\<close>

record LoanTermOption =
  label :: string
  years :: number

definition LOAN_TERMS :: "LoanTermOption list" where
  "LOAN_TERMS =
     [\<lparr>label = ''15 years (fix)'', years = Num 15\<rparr>,
      \<lparr>label = ''20 years (fix)'', years = Num 20\<rparr>,
      \<lparr>label = ''30 years (fix)'', years = Num 30\<rparr>]"

definition DEFAULT_PURCHASE_PRICE :: number where
  "DEFAULT_PURCHASE_PRICE = Num 990000"

definition DEFAULT_DOWN_PAYMENT :: number where
  "DEFAULT_DOWN_PAYMENT = Num 22002"

definition DEFAULT_RATE :: number where
  "DEFAULT_RATE = Num (4264 / 1000)"

definition DEFAULT_TERM :: LoanTermOption where
  "DEFAULT_TERM = LOAN_TERMS ! 1"

text \<open>The state of the component \<open>App\<close>, one field for each \<open>useState\<close>
  (\<open>term\<close> is written \<open>term'\<close>).\<close>

record AppState =
  purchasePrice :: number
  downPayment :: number
  rate :: number
  term' :: LoanTermOption

definition initialState :: AppState where
  "initialState =
     \<lparr>purchasePrice = DEFAULT_PURCHASE_PRICE, downPayment = DEFAULT_DOWN_PAYMENT,
      rate = DEFAULT_RATE, term' = DEFAULT_TERM\<rparr>"

text \<open>
  The \<open>onChange\<close> handler of the select element. Its argument is the number that
  \<open>Number(e.target.value)\<close> produced. \<open>selected || DEFAULT_TERM\<close> takes the default
  when \<open>find\<close> returned \<open>undefined\<close>: an option object is never falsy.
\<close>

definition onTermChange :: "number \<Rightarrow> AppState \<Rightarrow> AppState" where
  "onTermChange v s =
     (let selected = find (\<lambda>t. strict_eq (years t) v) LOAN_TERMS
      in s\<lparr>term' := (case selected of Some t \<Rightarrow> t | None \<Rightarrow> DEFAULT_TERM)\<rparr>)"

section \<open>The formula and the simulation of the specification\<close>


text \<open>
  The balance simulation of the specification: \<open>balance L r P k\<close> is the balance
  after \<open>k\<close> months, from \<open>balance\<^sub>0 = L\<close> by
  \<open>balance\<^bsub>k+1\<^esub> = balance\<^sub>k * (1 + r) - P\<close>.
\<close>

fun balance :: "real \<Rightarrow> real \<Rightarrow> real \<Rightarrow> nat \<Rightarrow> real" where
  "balance L r P 0 = L"
| "balance L r P (Suc k) = balance L r P k * (1 + r) - P"

section \<open>Evaluation of the local constants on finite inputs\<close>

lemma loanAmount_Num: "loanAmount (Num p) (Num d) = Num (max (p - d) 0)"
  by (simp add: loanAmount_def num_sub_def)

lemma monthlyRate_Num: "monthlyRate (Num a) = Num (a / 100 / 12)"
  by (simp add: monthlyRate_def)

lemma installments_Num: "installments (Num y) = Num (y * 12)"
  by (simp add: installments_def)

lemma strict_eq_Num: "strict_eq (Num a) (Num b) = (a = b)"
  by (simp add: strict_eq_def)

lemma numerator_Num:
  "0 < 1 + r \<Longrightarrow> n \<noteq> 0 \<Longrightarrow> numerator (Num r) (Num n) = Num (r * (1 + r) powr n)"
  by (simp add: numerator_def pow_finite_def)

lemma denominator_Num:
  "0 < 1 + r \<Longrightarrow> n \<noteq> 0 \<Longrightarrow> denominator (Num r) (Num n) = Num ((1 + r) powr n - 1)"
  by (simp add: denominator_def pow_finite_def num_sub_def)



lemma calc_zero_rate:
  assumes "y \<noteq> 0"
  shows "calculateMonthlyPrincipalAndInterest (Num p) (Num d) (Num 0) (Num y)
    = Num (max (p - d) 0 / (y * 12))"
  using assms
  by (simp add: calculateMonthlyPrincipalAndInterest_def loanAmount_Num strict_eq_Num
      monthlyRate_Num installments_Num Let_def)

lemma calc_positive_rate:
  assumes "d < p" "0 < a" "y \<noteq> 0"
  shows "calculateMonthlyPrincipalAndInterest (Num p) (Num d) (Num a) (Num y)
    = Num ((p - d) * (a / 100 / 12 * (1 + a / 100 / 12) powr (y * 12)
        / ((1 + a / 100 / 12) powr (y * 12) - 1)))"
proof -
  let ?r = "a / 100 / 12"
  have r: "0 < ?r" using assms(2) by simp
  then have one: "1 < 1 + ?r" by simp
  have n: "y * 12 \<noteq> 0" using assms(3) by simp
  have den: "(1 + ?r) powr (y * 12) - 1 \<noteq> 0"
    using powr_eq_one_iff [OF one, of "y * 12"] n by simp
  have num: "numerator (Num ?r) (Num (y * 12)) = Num (?r * (1 + ?r) powr (y * 12))"
    using r n by (intro numerator_Num) simp_all
  have dn: "denominator (Num ?r) (Num (y * 12)) = Num ((1 + ?r) powr (y * 12) - 1)"
    using r n by (intro denominator_Num) simp_all
  have la: "loanAmount (Num p) (Num d) = Num (p - d)"
    using assms(1) by (simp add: loanAmount_Num)
  have ne: "p - d \<noteq> 0" "?r \<noteq> 0" using assms(1) r by simp_all
  show ?thesis
    unfolding calculateMonthlyPrincipalAndInterest_def Let_def la monthlyRate_Num
      installments_Num num dn strict_eq_Num
    using ne den by simp
qed


lemma powr_months:
  fixes x :: real
  assumes "0 < x"
  shows "x powr (real k * 12) = x ^ (k * 12)"
proof -
  have "real k * 12 = real (k * 12)" by simp
  then show ?thesis using assms by (simp only: powr_realpow)
qed

lemma calc_positive_rate_nat:
  assumes "d < p" "0 < a" "0 < k"
  shows "calculateMonthlyPrincipalAndInterest (Num p) (Num d) (Num a) (Num (real k))
    = Num ((p - d) * (a / 100 / 12 * (1 + a / 100 / 12) ^ (k * 12)
        / ((1 + a / 100 / 12) ^ (k * 12) - 1)))"
proof -
  have "0 < 1 + a / 100 / 12" using assms(2) by simp
  then have "(1 + a / 100 / 12) powr (real k * 12) = (1 + a / 100 / 12) ^ (k * 12)"
    by (rule powr_months)
  moreover have "real k \<noteq> 0" using assms(3) by simp
  ultimately show ?thesis
    using calc_positive_rate [OF assms(1,2), of "real k"] by simp
qed

lemma calc_zero_loan:
  assumes "p \<le> d"
  shows "calculateMonthlyPrincipalAndInterest (Num p) (Num d) a y = Num 0"
  using assms
  by (simp add: calculateMonthlyPrincipalAndInterest_def loanAmount_Num strict_eq_Num)

lemma calc_value:
  assumes "0 \<le> a" "y \<noteq> 0"
  shows "calculateMonthlyPrincipalAndInterest (Num p) (Num d) (Num a) (Num y)
    = Num (max (p - d) 0 *
        (if a = 0 then 1 / (y * 12)
         else a / 100 / 12 * (1 + a / 100 / 12) powr (y * 12)
           / ((1 + a / 100 / 12) powr (y * 12) - 1)))"
proof (cases "p \<le> d")
  case True
  then show ?thesis by (simp add: calc_zero_loan)
next
  case False
  then have pd: "d < p" by simp
  show ?thesis
  proof (cases "a = 0")
    case True
    then show ?thesis using calc_zero_rate [OF assms(2), of p d] by simp
  next
    case False
    then have "0 < a" using assms(1) by simp
    then show ?thesis using calc_positive_rate [OF pd _ assms(2), of a] pd by simp
  qed
qed

section \<open>Rounding to double precision\<close>

lemma round_half_even_of_int: "round_half_even (of_int m) = m"
  by (simp add: round_half_even_def)

lemma round_half_even_ge_floor: "\<lfloor>z\<rfloor> \<le> round_half_even z"
  by (simp add: round_half_even_def Let_def)

lemma round_half_even_le_ceil: "round_half_even z \<le> \<lfloor>z\<rfloor> + 1"
  by (simp add: round_half_even_def Let_def)

lemma binade_eq:
  assumes "2 powi e \<le> \<bar>x\<bar>" "\<bar>x\<bar> < 2 powi (e + 1)" "- 1022 \<le> e"
  shows "binade x = e"
proof -
  have "0 < (2::real) powi e" by simp
  then have pos: "0 < \<bar>x\<bar>" using assms(1) by linarith
  have "(2::real) powr real_of_int e = 2 powi e"
    by (rule powr_real_of_int') simp_all
  moreover have "(2::real) powr (real_of_int e + 1) = 2 powi (e + 1)"
    using powr_real_of_int' [of "2::real" "e + 1"] by simp
  ultimately have "(2::real) powr real_of_int e \<le> \<bar>x\<bar> \<and> \<bar>x\<bar> < 2 powr (real_of_int e + 1)"
    using assms(1,2) by simp
  then have "\<lfloor>log 2 \<bar>x\<bar>\<rfloor> = e"
    using floor_log_eq_powr_iff [of "\<bar>x\<bar>" 2 e] pos by simp
  then show ?thesis using assms(3) by (simp add: binade_def)
qed

lemma round64_exact:
  assumes "2 powi e \<le> \<bar>x\<bar>" "\<bar>x\<bar> < 2 powi (e + 1)" "- 1022 \<le> e" "e \<le> 1023"
    and "x / 2 powi (e - 52) = of_int m"
  shows "round64 x = Num x"
proof -
  have b: "binade x = e" using assms(1-3) by (rule binade_eq)
  have "0 < (2::real) powi e" by simp
  then have "0 < \<bar>x\<bar>" using assms(1) by (rule less_le_trans)
  then have x0: "x \<noteq> 0" by simp
  have q: "(2::real) powi (e - 52) \<noteq> 0" by simp
  have "round_half_even (x / 2 powi (e - 52)) = m"
    by (simp only: assms(5) round_half_even_of_int)
  moreover have "of_int m * 2 powi (e - 52) = x"
    using assms(5) q by (simp add: divide_eq_eq)
  ultimately have y: "of_int (round_half_even (x / 2 powi (e - 52))) * 2 powi (e - 52) = x"
    by simp
  have "(2::real) powi (e + 1) \<le> 2 powi 1024"
    using assms(4) by (intro power_int_increasing) simp_all
  then have "\<bar>x\<bar> < 2 ^ 1024" using assms(2) by simp
  then show ?thesis using x0 by (simp add: round64_def b y Let_def)
qed


lemma round64_overflow:
  assumes "2 ^ 1024 \<le> x"
  shows "round64 x = PosInf"
proof -
  define e where "e = \<lfloor>log 2 \<bar>x\<bar>\<rfloor>"
  have x: "0 < x" "\<bar>x\<bar> = x"
    using assms zero_less_power [of "2::real" 1024] by linarith+
  have "log 2 (2 ^ 1024) \<le> log 2 x"
    using assms x by (intro log_mono) simp_all
  moreover have "log 2 ((2::real) ^ 1024) = real 1024"
    by (rule log_pow_cancel) simp_all
  ultimately have "1024 \<le> log 2 x" by simp
  then have e: "1024 \<le> e" unfolding e_def x(2) by (simp add: le_floor_iff)
  then have b: "binade x = e" by (simp add: binade_def e_def)
  have "(2::real) powr real_of_int e \<le> x"
    using x floor_log_eq_powr_iff [of x 2 e] by (simp add: e_def)
  then have ex: "2 powi e \<le> x" by (simp add: powr_real_of_int')
  let ?q = "(2::real) powi (e - 52)"
  have q: "0 < ?q" by simp
  have "2 powi e / ?q \<le> x / ?q" using ex q by (simp add: divide_right_mono)
  moreover have "2 powi e / ?q = (2::real) ^ 52" by (simp add: power_int_diff)
  ultimately have "of_int (2 ^ 52) \<le> x / ?q" by simp
  then have "2 ^ 52 \<le> \<lfloor>x / ?q\<rfloor>" by (simp only: le_floor_iff)
  then have m: "2 ^ 52 \<le> round_half_even (x / ?q)"
    using round_half_even_ge_floor [of "x / ?q"] by linarith
  have "(of_int (2 ^ 52) :: real) \<le> of_int (round_half_even (x / ?q))"
    using m by (simp only: of_int_le_iff)
  then have m': "(2::real) ^ 52 \<le> of_int (round_half_even (x / ?q))" by simp
  have "(2::real) ^ 1024 = 2 powi 1024" by simp
  also have "\<dots> \<le> 2 powi e"
    using e by (intro power_int_increasing) simp_all
  also have "\<dots> = 2 ^ 52 * ?q" by (simp add: power_int_diff)
  also have "\<dots> \<le> of_int (round_half_even (x / ?q)) * ?q"
    using m' q by (intro mult_right_mono) simp_all
  finally have y: "2 ^ 1024 \<le> of_int (round_half_even (x / ?q)) * ?q" .
  then have "0 < of_int (round_half_even (x / ?q)) * ?q"
    using zero_less_power [of "2::real" 1024] by linarith
  then show ?thesis using x y by (simp add: round64_def b Let_def)
qed



lemma round64_normal:
  assumes "2 powi e \<le> \<bar>x\<bar>" "\<bar>x\<bar> < 2 powi (e + 1)" "- 1022 \<le> e" "e \<le> 1022"
  shows "round64 x = Num (of_int (round_half_even (x / 2 powi (e - 52))) * 2 powi (e - 52))"
proof -
  let ?q = "(2::real) powi (e - 52)"
  let ?m = "round_half_even (x / ?q)"
  have b: "binade x = e" using assms(1-3) by (rule binade_eq)
  have "0 < (2::real) powi e" by simp
  then have "0 < \<bar>x\<bar>" using assms(1) by (rule less_le_trans)
  then have x0: "x \<noteq> 0" by simp
  have q: "0 < ?q" by simp
  have qe: "2 ^ 53 * ?q = 2 powi (e + 1)"
    by (simp add: power_int_diff power_int_add)
  have "\<bar>x\<bar> / ?q < 2 powi (e + 1) / ?q"
    using assms(2) q by (simp add: divide_strict_right_mono)
  also have "2 powi (e + 1) / ?q = 2 ^ 53"
    using qe q by (simp add: field_simps)
  finally have z: "\<bar>x / ?q\<bar> < 2 ^ 53" using q by simp
  have zz: "x / ?q < 2 ^ 53" "- (x / ?q) < 2 ^ 53"
    using z by (simp_all only: abs_less_iff)
  have "x / ?q < of_int (2 ^ 53)" using zz(1) by simp
  then have "\<lfloor>x / ?q\<rfloor> < 2 ^ 53" by (simp only: floor_less_iff)
  then have up: "?m \<le> 2 ^ 53"
    using round_half_even_le_ceil [of "x / ?q"] by linarith
  have "of_int (- (2 ^ 53)) \<le> x / ?q" using zz(2) by simp
  then have "- (2 ^ 53) \<le> \<lfloor>x / ?q\<rfloor>" by (simp only: le_floor_iff)
  then have lo: "- (2 ^ 53) \<le> ?m"
    using round_half_even_ge_floor [of "x / ?q"] by linarith
  have "\<bar>?m\<bar> \<le> 2 ^ 53" using up lo by simp
  then have "(of_int \<bar>?m\<bar> :: real) \<le> of_int (2 ^ 53)" by (simp only: of_int_le_iff)
  then have "\<bar>of_int ?m :: real\<bar> \<le> 2 ^ 53" by simp
  then have "\<bar>of_int ?m :: real\<bar> * ?q \<le> 2 ^ 53 * ?q"
    using q by (intro mult_right_mono) simp_all
  also have "\<dots> = 2 powi (e + 1)" by (rule qe)
  also have "\<dots> \<le> 2 powi 1023"
    using assms(4) by (intro power_int_increasing) simp_all
  also have "\<dots> < (2::real) ^ 1024" by simp
  finally have "\<bar>of_int ?m * ?q\<bar> < 2 ^ 1024" using q by (simp add: abs_mult)
  then show ?thesis using x0 by (simp add: round64_def b Let_def)
qed

lemma round64_0: "round64 0 = Num 0"
  by (simp add: round64_def)

lemma round64_1: "round64 1 = Num 1"
  by (rule round64_exact [where e = 0 and m = "2 ^ 52"]) simp_all

lemma round64_2: "round64 2 = Num 2"
  by (rule round64_exact [where e = 1 and m = "2 ^ 52"]) simp_all

lemma round64_12: "round64 12 = Num 12"
  by (rule round64_exact [where e = 3 and m = "3 * 2 ^ 51"]) simp_all

lemma round64_75: "round64 75 = Num 75"
  by (rule round64_exact [where e = 6 and m = "75 * 2 ^ 46"]) simp_all

lemma round64_180: "round64 180 = Num 180"
  by (rule round64_exact [where e = 7 and m = "45 * 2 ^ 47"]) simp_all

lemma round64_360: "round64 360 = Num 360"
  by (rule round64_exact [where e = 8 and m = "45 * 2 ^ 47"]) simp_all

lemma round64_100000: "round64 100000 = Num 100000"
  by (rule round64_exact [where e = 16 and m = "3125 * 2 ^ 41"]) simp_all

lemma round64_25_4: "round64 (25 / 4) = Num (25 / 4)"
  by (rule round64_exact [where e = 2 and m = "25 * 2 ^ 48"]) simp_all

lemma round64_29_4: "round64 (29 / 4) = Num (29 / 4)"
  by (rule round64_exact [where e = 2 and m = "29 * 2 ^ 48"]) simp_all



lemma round64_pow53: "round64 (2 ^ 53) = Num (2 ^ 53)"
  by (rule round64_exact [where e = 53 and m = "2 ^ 52"]) simp_all

lemma round64_pow360: "round64 (2 ^ 360) = Num (2 ^ 360)"
  by (rule round64_exact [where e = 360 and m = "2 ^ 52"]) simp_all

lemma round64_pow53_plus_1: "round64 (2 ^ 53 + 1) = Num (2 ^ 53)"
proof -
  have "round64 (2 ^ 53 + 1)
      = Num (of_int (round_half_even ((2 ^ 53 + 1) / 2 powi (53 - 52))) * 2 powi (53 - 52))"
    by (rule round64_normal) simp_all
  moreover have "round_half_even ((2 ^ 53 + 1) / 2 powi (53 - 52)) = 2 ^ 52"
    by (simp add: round_half_even_def Let_def)
  ultimately show ?thesis by simp
qed

lemma round64_pow360_minus_1: "round64 (2 ^ 360 - 1) = Num (2 ^ 360)"
proof -
  have "round64 (2 ^ 360 - 1)
      = Num (of_int (round_half_even ((2 ^ 360 - 1) / 2 powi (359 - 52))) * 2 powi (359 - 52))"
    by (rule round64_normal) simp_all
  moreover have "round_half_even ((2 ^ 360 - 1) / 2 powi (359 - 52)) = 2 ^ 53"
    by (simp add: round_half_even_def Let_def)
  ultimately show ?thesis by simp
qed

lemma round64_1_180: "round64 (1 / 180) = Num (6405119470038039 / 2 ^ 60)"
proof -
  have "round64 (1 / 180)
      = Num (of_int (round_half_even ((1 / 180) / 2 powi (- 8 - 52))) * 2 powi (- 8 - 52))"
    by (rule round64_normal) simp_all
  moreover have "round_half_even ((1 / 180) / 2 powi (- 8 - 52)) = 6405119470038039"
    by (simp add: round_half_even_def Let_def)
  ultimately show ?thesis by simp
qed

lemma pow_overflows: "(2::real) ^ 1024 \<le> (29 / 4) ^ 360"
proof -
  have a: "(2::real) ^ 20 \<le> (29 / 4) ^ 7" by (simp add: power_divide)
  have b: "(2::real) ^ 4 \<le> (29 / 4) ^ 3" by (simp add: power_divide)
  have "((2::real) ^ 20) ^ 51 \<le> ((29 / 4) ^ 7) ^ 51"
    using a by (intro power_mono) simp_all
  then have c: "(2::real) ^ 1020 \<le> (29 / 4) ^ 357"
    by (simp only: power_mult [symmetric]) simp
  have "(2::real) ^ 1020 * 2 ^ 4 \<le> (29 / 4) ^ 357 * (29 / 4) ^ 3"
    using c b by (intro mult_mono) simp_all
  then show ?thesis by (simp only: power_add [symmetric]) simp
qed

section \<open>Evaluation of the calculator in double precision\<close>

lemma loanAmount64_100000: "loanAmount64 (Num 100000) (Num 0) = Num 100000"
  by (simp add: loanAmount64_def f64_sub_def num_sub_def round64_100000)

lemma installments64_30: "installments64 (Num 30) = Num 360"
  by (simp add: installments64_def f64_mul_def round64_360)

lemma installments64_15: "installments64 (Num 15) = Num 180"
  by (simp add: installments64_def f64_mul_def round64_180)

lemma monthlyRate64_0: "monthlyRate64 (Num 0) = Num 0"
  by (simp add: monthlyRate64_def f64_div_def round64_0)

lemma monthlyRate64_7500: "monthlyRate64 (Num 7500) = Num (25 / 4)"
  by (simp add: monthlyRate64_def f64_div_def round64_75 round64_25_4)

lemma monthlyRate64_1200: "monthlyRate64 (Num 1200) = Num 1"
  by (simp add: monthlyRate64_def f64_div_def round64_12 round64_1)


lemma pow64_overflow: "f64_pow (Num (29 / 4)) (Num 360) = PosInf"
proof -
  have "Math_pow (Num (29 / 4)) (Num 360) = Num ((29 / 4) ^ 360)"
    by (simp add: pow_finite_def)
  then show ?thesis
    by (simp only: f64_pow_def rnd.simps round64_overflow [OF pow_overflows])
qed


lemma pow64_two: "f64_pow (Num 2) (Num 360) = Num (2 ^ 360)"
proof -
  have "Math_pow (Num 2) (Num 360) = Num (2 ^ 360)"
    by (simp add: pow_finite_def del: power_numeral)
  then show ?thesis
    by (simp only: f64_pow_def rnd.simps round64_pow360)
qed




lemma calc64_rate_7500:
  "calculateMonthlyPrincipalAndInterest64 (Num 100000) (Num 0) (Num 7500) (Num 30) = NaN"
proof -
  have base: "f64_add (Num 1) (Num (25 / 4)) = Num (29 / 4)"
    using round64_29_4 by (simp add: f64_add_def)
  have num: "numerator64 (Num (25 / 4)) (Num 360) = PosInf"
    by (simp add: numerator64_def base pow64_overflow f64_mul_def)
  have den: "denominator64 (Num (25 / 4)) (Num 360) = PosInf"
    by (simp add: denominator64_def base pow64_overflow f64_sub_def num_sub_def)
  show ?thesis
    unfolding calculateMonthlyPrincipalAndInterest64_def Let_def loanAmount64_100000
      monthlyRate64_7500 installments64_30 num den
    by (simp add: strict_eq_Num f64_div_def f64_mul_def)
qed

lemma calc64_rate_1200:
  "calculateMonthlyPrincipalAndInterest64 (Num 100000) (Num 0) (Num 1200) (Num 30) = Num 100000"
proof -
  have base: "f64_add (Num 1) (Num 1) = Num 2"
    using round64_2 by (simp add: f64_add_def)
  have "round64 (1 * 2 ^ 360) = Num (2 ^ 360)"
    using round64_pow360 by (simp only: mult_1)
  then have num: "numerator64 (Num 1) (Num 360) = Num (2 ^ 360)"
    by (simp only: numerator64_def base pow64_two f64_mul_def num_mul.simps rnd.simps)
  have "num_sub (Num (2 ^ 360)) (Num 1) = Num (2 ^ 360 - 1)"
    by (simp add: num_sub_def del: power_numeral)
  then have den: "denominator64 (Num 1) (Num 360) = Num (2 ^ 360)"
    by (simp only: denominator64_def base pow64_two f64_sub_def rnd.simps round64_pow360_minus_1)
  have quot: "f64_div (Num (2 ^ 360)) (Num (2 ^ 360)) = Num 1"
    by (simp add: f64_div_def round64_1)
  have prod: "f64_mul (Num 100000) (Num 1) = Num 100000"
    by (simp add: f64_mul_def round64_100000)
  show ?thesis
    unfolding calculateMonthlyPrincipalAndInterest64_def Let_def loanAmount64_100000
      monthlyRate64_1200 installments64_30 num den quot prod
    by (simp add: strict_eq_Num)
qed

lemma calc64_unshifted:
  "calculateMonthlyPrincipalAndInterest64 (Num 1) (Num 0) (Num 0) (Num 15)
    = Num (6405119470038039 / 2 ^ 60)"
proof -
  have la: "loanAmount64 (Num 1) (Num 0) = Num 1"
    by (simp add: loanAmount64_def f64_sub_def num_sub_def round64_1)
  have quot: "f64_div (Num 1) (Num 180) = Num (6405119470038039 / 2 ^ 60)"
    using round64_1_180 by (simp add: f64_div_def)
  show ?thesis
    unfolding calculateMonthlyPrincipalAndInterest64_def Let_def la monthlyRate64_0
      installments64_15 quot
    by (simp add: strict_eq_Num)
qed

lemma calc64_shifted:
  "calculateMonthlyPrincipalAndInterest64 (f64_add (Num 1) (Num (2 ^ 53)))
      (f64_add (Num 0) (Num (2 ^ 53))) (Num 0) (Num 15) = Num 0"
proof -
  have a: "f64_add (Num 1) (Num (2 ^ 53)) = Num (2 ^ 53)"
    using round64_pow53_plus_1 by (simp add: f64_add_def add.commute)
  have b: "f64_add (Num 0) (Num (2 ^ 53)) = Num (2 ^ 53)"
    using round64_pow53 by (simp add: f64_add_def)
  have la: "loanAmount64 (Num (2 ^ 53)) (Num (2 ^ 53)) = Num 0"
    by (simp add: loanAmount64_def f64_sub_def num_sub_def round64_0)
  show ?thesis
    unfolding calculateMonthlyPrincipalAndInterest64_def Let_def a b la
    by (simp add: strict_eq_Num)
qed


text \<open>
  In double precision the result is never negative: rounding keeps a value that is at
  least 0 (or at least 1) so, each operator of the function keeps its operands in the
  numbers that are at least 0, \<open>+Infinity\<close> or NaN, and the power of a base of at
  least 1 is at least 1.
\<close>

lemma round64_not_NaN: "round64 x \<noteq> NaN"
  by (simp add: round64_def Let_def)

lemma round64_nonneg:
  assumes "0 \<le> x"
  shows "num_le (Num 0) (round64 x)"
proof -
  let ?q = "(2::real) powi (binade x - 52)"
  have q: "0 < ?q" by simp
  have "0 \<le> x / ?q" using assms q by simp
  then have "0 \<le> \<lfloor>x / ?q\<rfloor>" by simp
  then have "0 \<le> round_half_even (x / ?q)"
    using round_half_even_ge_floor [of "x / ?q"] by linarith
  then have "0 \<le> (of_int (round_half_even (x / ?q)) :: real) * ?q"
    using q by simp
  then show ?thesis by (simp add: round64_def Let_def)
qed

lemma round64_ge_one:
  assumes "1 \<le> x"
  shows "num_le (Num 1) (round64 x)"
proof -
  define e where "e = \<lfloor>log 2 \<bar>x\<bar>\<rfloor>"
  have x: "0 < x" "\<bar>x\<bar> = x" using assms by linarith+
  have "log 2 1 \<le> log 2 x" using assms by (intro log_mono) simp_all
  then have "0 \<le> log 2 x" by simp
  then have e: "0 \<le> e" unfolding e_def x(2) by simp
  then have b: "binade x = e" by (simp add: binade_def e_def)
  have "(2::real) powr real_of_int e \<le> x"
    using x floor_log_eq_powr_iff [of x 2 e] by (simp add: e_def)
  then have ex: "2 powi e \<le> x" by (simp add: powr_real_of_int')
  let ?q = "(2::real) powi (e - 52)"
  have q: "0 < ?q" by simp
  have "2 powi e / ?q \<le> x / ?q" using ex q by (simp add: divide_right_mono)
  moreover have "2 powi e / ?q = (2::real) ^ 52" by (simp add: power_int_diff)
  ultimately have "of_int (2 ^ 52) \<le> x / ?q" by simp
  then have "2 ^ 52 \<le> \<lfloor>x / ?q\<rfloor>" by (simp only: le_floor_iff)
  then have m: "2 ^ 52 \<le> round_half_even (x / ?q)"
    using round_half_even_ge_floor [of "x / ?q"] by linarith
  have "(of_int (2 ^ 52) :: real) \<le> of_int (round_half_even (x / ?q))"
    using m by (simp only: of_int_le_iff)
  then have m': "(2::real) ^ 52 \<le> of_int (round_half_even (x / ?q))" by simp
  have "(1::real) \<le> 2 powi e" using e by simp
  also have "\<dots> = 2 ^ 52 * ?q" by (simp add: power_int_diff)
  also have "\<dots> \<le> of_int (round_half_even (x / ?q)) * ?q"
    using m' q by (intro mult_right_mono) simp_all
  finally have y: "1 \<le> of_int (round_half_even (x / ?q)) * ?q" .
  then have "0 < of_int (round_half_even (x / ?q)) * ?q" by linarith
  then show ?thesis using x y by (simp add: round64_def b Let_def)
qed

lemma rnd_nonneg: "num_le (Num 0) v \<Longrightarrow> num_le (Num 0) (rnd v)"
  by (cases v) (simp_all add: round64_nonneg)

lemma rnd_ge_one: "num_le (Num 1) v \<Longrightarrow> num_le (Num 1) (rnd v)"
  by (cases v) (simp_all add: round64_ge_one)

lemma rnd_nonneg_or_NaN: "v = NaN \<or> num_le (Num 0) v \<Longrightarrow> rnd v = NaN \<or> num_le (Num 0) (rnd v)"
  using rnd_nonneg [of v] by auto

lemma rnd_ge_one_or_NaN: "v = NaN \<or> num_le (Num 1) v \<Longrightarrow> rnd v = NaN \<or> num_le (Num 1) (rnd v)"
  using rnd_ge_one [of v] by auto

lemma loanAmount64_nonneg: "num_le (Num 0) (loanAmount64 (Num p) (Num d))"
proof -
  have "num_le (Num 0) (Math_max v (Num 0))" if "v \<noteq> NaN" for v
    using that by (cases v) simp_all
  then show ?thesis
    by (simp add: loanAmount64_def f64_sub_def num_sub_def round64_not_NaN)
qed

lemma monthlyRate64_nonneg:
  assumes "0 \<le> a"
  shows "num_le (Num 0) (monthlyRate64 (Num a))"
proof -
  have d: "num_le (Num 0) (num_div v (Num 12))" if "num_le (Num 0) v" for v
    using that by (cases v) simp_all
  have "num_le (Num 0) (f64_div (Num a) (Num 100))"
    using assms by (simp add: f64_div_def round64_nonneg)
  then show ?thesis
    unfolding monthlyRate64_def f64_div_def [of _ "Num 12"]
    by (intro rnd_nonneg d)
qed

lemma installments64_ge_one:
  assumes "0 < k"
  shows "num_le (Num 1) (installments64 (Num (real k)))"
proof -
  have "1 \<le> real k * 12" using assms by simp
  then show ?thesis by (simp add: installments64_def f64_mul_def round64_ge_one)
qed

lemma f64_mul_nonneg:
  assumes "a = NaN \<or> num_le (Num 0) a" "b = NaN \<or> num_le (Num 0) b"
  shows "f64_mul a b = NaN \<or> num_le (Num 0) (f64_mul a b)"
proof -
  have "num_mul a b = NaN \<or> num_le (Num 0) (num_mul a b)"
    using assms by (cases a; cases b) auto
  then show ?thesis unfolding f64_mul_def by (rule rnd_nonneg_or_NaN)
qed

lemma f64_div_nonneg:
  assumes "a = NaN \<or> num_le (Num 0) a" "b = NaN \<or> num_le (Num 0) b"
  shows "f64_div a b = NaN \<or> num_le (Num 0) (f64_div a b)"
proof -
  have "num_div a b = NaN \<or> num_le (Num 0) (num_div a b)"
    using assms by (cases a; cases b) auto
  then show ?thesis unfolding f64_div_def by (rule rnd_nonneg_or_NaN)
qed

lemma f64_add_one_ge_one:
  assumes "num_le (Num 0) r"
  shows "num_le (Num 1) (f64_add (Num 1) r)"
proof -
  have "num_le (Num 1) (num_add (Num 1) r)"
    using assms by (cases r) simp_all
  then show ?thesis unfolding f64_add_def by (rule rnd_ge_one)
qed

lemma f64_pow_ge_one:
  assumes "num_le (Num 1) b" "num_le (Num 1) n"
  shows "f64_pow b n = NaN \<or> num_le (Num 1) (f64_pow b n)"
proof -
  have "Math_pow b n = NaN \<or> num_le (Num 1) (Math_pow b n)"
    using assms by (cases b; cases n) (auto simp add: pow_finite_def ge_one_powr_ge_zero)
  then show ?thesis unfolding f64_pow_def by (rule rnd_ge_one_or_NaN)
qed

lemma f64_sub_one_nonneg:
  assumes "v = NaN \<or> num_le (Num 1) v"
  shows "f64_sub v (Num 1) = NaN \<or> num_le (Num 0) (f64_sub v (Num 1))"
proof -
  have "num_sub v (Num 1) = NaN \<or> num_le (Num 0) (num_sub v (Num 1))"
    using assms by (cases v) (auto simp add: num_sub_def)
  then show ?thesis unfolding f64_sub_def by (rule rnd_nonneg_or_NaN)
qed

lemma calc64_never_negative:
  assumes "0 \<le> a" "0 < k"
  shows "calculateMonthlyPrincipalAndInterest64 (Num p) (Num d) (Num a) (Num (real k)) = NaN
    \<or> num_le (Num 0)
        (calculateMonthlyPrincipalAndInterest64 (Num p) (Num d) (Num a) (Num (real k)))"
proof -
  let ?la = "loanAmount64 (Num p) (Num d)"
  let ?r = "monthlyRate64 (Num a)"
  let ?n = "installments64 (Num (real k))"
  have la: "?la = NaN \<or> num_le (Num 0) ?la" using loanAmount64_nonneg by simp
  have r: "num_le (Num 0) ?r" using assms(1) by (rule monthlyRate64_nonneg)
  have n: "num_le (Num 1) ?n" using assms(2) by (rule installments64_ge_one)
  have n0: "?n = NaN \<or> num_le (Num 0) ?n" using n by (cases ?n) simp_all
  have pw: "f64_pow (f64_add (Num 1) ?r) ?n = NaN
      \<or> num_le (Num 1) (f64_pow (f64_add (Num 1) ?r) ?n)"
    using f64_add_one_ge_one [OF r] n by (rule f64_pow_ge_one)
  then have pw0: "f64_pow (f64_add (Num 1) ?r) ?n = NaN
      \<or> num_le (Num 0) (f64_pow (f64_add (Num 1) ?r) ?n)"
    by (cases "f64_pow (f64_add (Num 1) ?r) ?n") simp_all
  have num: "numerator64 ?r ?n = NaN \<or> num_le (Num 0) (numerator64 ?r ?n)"
    unfolding numerator64_def using r pw0 by (intro f64_mul_nonneg) simp_all
  have den: "denominator64 ?r ?n = NaN \<or> num_le (Num 0) (denominator64 ?r ?n)"
    unfolding denominator64_def using pw by (rule f64_sub_one_nonneg)
  have a1: "f64_div ?la ?n = NaN \<or> num_le (Num 0) (f64_div ?la ?n)"
    using la n0 by (rule f64_div_nonneg)
  have a2: "f64_mul ?la (f64_div (numerator64 ?r ?n) (denominator64 ?r ?n)) = NaN
      \<or> num_le (Num 0) (f64_mul ?la (f64_div (numerator64 ?r ?n) (denominator64 ?r ?n)))"
    using la f64_div_nonneg [OF num den] by (rule f64_mul_nonneg)
  show ?thesis
    unfolding calculateMonthlyPrincipalAndInterest64_def Let_def
    using a1 a2 by simp
qed

lemma calc64_difference_only:
  assumes "f64_sub p1 d1 = f64_sub p2 d2"
  shows "calculateMonthlyPrincipalAndInterest64 p1 d1 a y
    = calculateMonthlyPrincipalAndInterest64 p2 d2 a y"
  using assms by (simp add: calculateMonthlyPrincipalAndInterest64_def loanAmount64_def)

section \<open>Zero loan amount\<close>

text \<open>
  C5: when the purchase price does not exceed the down payment, the loan amount is
  zero and the calculator returns 0, whatever the rate and the term are (also for a
  rate or a term that is not a finite number).
\<close>

theorem zero_loan_returns_zero:
  assumes "p \<le> d"
  shows "loanAmount (Num p) (Num d) = Num 0
    \<and> calculateMonthlyPrincipalAndInterest (Num p) (Num d) a y = Num 0"
  using assms
  by (simp add: calculateMonthlyPrincipalAndInterest_def loanAmount_Num strict_eq_Num)

theorem zero_loan_returns_zero_witness:
  "(100000::real) \<le> 100000
    \<and> loanAmount (Num 100000) (Num 100000) = Num 0
    \<and> calculateMonthlyPrincipalAndInterest (Num 100000) (Num 100000) (Num 5) NaN = Num 0"
  using zero_loan_returns_zero [of 100000 100000 "Num 5" NaN] by simp

section \<open>Zero rate\<close>

text \<open>
  C4: with an annual rate of 0 and a term of a positive whole number of years, the
  monthly rate is 0 and the calculator returns the loan amount
  \<open>max (purchasePrice - downPayment) 0\<close> divided by \<open>termYears * 12\<close>.
\<close>

theorem zero_rate_straight_line:
  assumes "0 < k"
  shows "monthlyRate (Num 0) = Num 0
    \<and> calculateMonthlyPrincipalAndInterest (Num p) (Num d) (Num 0) (Num (real k))
      = Num (max (p - d) 0 / (real k * 12))"
proof -
  have "real k \<noteq> 0" using assms by simp
  then show ?thesis
    using calc_zero_rate [of "real k" p d] by (simp add: monthlyRate_Num)
qed

theorem zero_rate_straight_line_witness:
  "(0::nat) < 15
    \<and> calculateMonthlyPrincipalAndInterest (Num 120000) (Num 0) (Num 0) (Num 15)
      = Num (120000 / 180)"
  using zero_rate_straight_line [of 15 120000 0] by simp

section \<open>The annuity formula\<close>





section \<open>Amortization\<close>

lemma balance_closed_form:
  assumes "r \<noteq> 0"
  shows "balance L r P k = L * (1 + r) ^ k - P * ((1 + r) ^ k - 1) / r"
proof (induction k)
  case 0
  show ?case by simp
next
  case (Suc k)
  have "balance L r P (Suc k) = (L * (1 + r) ^ k - P * ((1 + r) ^ k - 1) / r) * (1 + r) - P"
    by (simp add: Suc.IH)
  also have "\<dots> = L * (1 + r) ^ Suc k - P * ((1 + r) ^ Suc k - 1) / r"
    using assms by (simp add: field_simps)
  finally show ?case .
qed

text \<open>
  C2: for a positive loan amount, a positive monthly rate and a term of a positive
  whole number \<open>k\<close> of years, the calculator returns a finite payment \<open>P\<close>, and
  the balance simulation from the loan amount with payment \<open>P\<close> is exactly 0 after
  \<open>k * 12\<close> months.
\<close>

theorem payment_amortizes:
  assumes "0 < max (p - d) 0" "0 < a / 100 / 12" "0 < k"
  shows "\<exists>P. calculateMonthlyPrincipalAndInterest (Num p) (Num d) (Num a) (Num (real k)) = Num P
    \<and> balance (max (p - d) 0) (a / 100 / 12) P (k * 12) = 0"
proof -
  have pd: "d < p" and a: "0 < a" using assms by simp_all
  let ?r = "a / 100 / 12"
  let ?Q = "(1 + ?r) ^ (k * 12)"
  let ?P = "(p - d) * (?r * ?Q / (?Q - 1))"
  have r: "0 < ?r" using a by simp
  have "1 < ?Q" using r assms(3) by (intro one_less_power) simp_all
  then have Q: "?Q - 1 \<noteq> 0" by simp
  have "balance (p - d) ?r ?P (k * 12) = (p - d) * ?Q - ?P * (?Q - 1) / ?r"
    using r by (intro balance_closed_form) simp
  also have "\<dots> = 0" using Q r by (simp add: field_simps)
  finally have "balance (max (p - d) 0) ?r ?P (k * 12) = 0" using pd by simp
  then show ?thesis
    using calc_positive_rate_nat [OF pd a assms(3)] by blast
qed

theorem payment_amortizes_witness:
  "0 < max (1300 - 100 :: real) 0 \<and> (0::real) < 1200 / 100 / 12 \<and> (0::nat) < 1
    \<and> (\<exists>P. calculateMonthlyPrincipalAndInterest (Num 1300) (Num 100) (Num 1200) (Num (real 1))
          = Num P
        \<and> balance (max (1300 - 100) 0) (1200 / 100 / 12) P (1 * 12) = 0)"
  using payment_amortizes [of 1300 100 1200 1] by simp

section \<open>Shifting price and down payment\<close>

text \<open>
  C10: the calculator depends on the purchase price and the down payment through
  their computed difference only: two pairs of numbers with the same difference
  \<open>purchasePrice - downPayment\<close> give the same result, in exact arithmetic and in
  double precision. In exact arithmetic, adding the same finite amount to both leaves
  the difference and so the result unchanged, for every rate and term.
\<close>

theorem shift_invariance:
  "calculateMonthlyPrincipalAndInterest (Num (p + s)) (Num (d + s)) a y
      = calculateMonthlyPrincipalAndInterest (Num p) (Num d) a y
    \<and> (num_sub p1 d1 = num_sub p2 d2 \<longrightarrow>
        calculateMonthlyPrincipalAndInterest p1 d1 a y
        = calculateMonthlyPrincipalAndInterest p2 d2 a y)
    \<and> (f64_sub p1 d1 = f64_sub p2 d2 \<longrightarrow>
        calculateMonthlyPrincipalAndInterest64 p1 d1 a y
        = calculateMonthlyPrincipalAndInterest64 p2 d2 a y)"
proof -
  have "calculateMonthlyPrincipalAndInterest (Num (p + s)) (Num (d + s)) a y
      = calculateMonthlyPrincipalAndInterest (Num p) (Num d) a y"
    by (simp add: calculateMonthlyPrincipalAndInterest_def loanAmount_Num)
  moreover have "num_sub p1 d1 = num_sub p2 d2 \<longrightarrow>
      calculateMonthlyPrincipalAndInterest p1 d1 a y
      = calculateMonthlyPrincipalAndInterest p2 d2 a y"
    by (simp add: calculateMonthlyPrincipalAndInterest_def loanAmount_def)
  moreover have "f64_sub p1 d1 = f64_sub p2 d2 \<longrightarrow>
      calculateMonthlyPrincipalAndInterest64 p1 d1 a y
      = calculateMonthlyPrincipalAndInterest64 p2 d2 a y"
    using calc64_difference_only [of p1 d1 p2 d2 a y] by blast
  ultimately show ?thesis by blast
qed

theorem shift_invariance_witness:
  "num_sub (Num 500) (Num 300) = num_sub (Num 400) (Num 200)
    \<and> calculateMonthlyPrincipalAndInterest (Num 500) (Num 300) (Num 0) (Num 1)
      = calculateMonthlyPrincipalAndInterest (Num 400) (Num 200) (Num 0) (Num 1)
    \<and> calculateMonthlyPrincipalAndInterest (Num (400 + 100)) (Num (200 + 100)) (Num 0) (Num 1)
      = calculateMonthlyPrincipalAndInterest (Num 400) (Num 200) (Num 0) (Num 1)
    \<and> f64_sub (Num 500) (Num 300) = f64_sub (Num 400) (Num 200)
    \<and> calculateMonthlyPrincipalAndInterest64 (Num 500) (Num 300) (Num 0) (Num 1)
      = calculateMonthlyPrincipalAndInterest64 (Num 400) (Num 200) (Num 0) (Num 1)"
  using shift_invariance [of 400 100 200 "Num 0" "Num 1" "Num 500" "Num 300" "Num 400" "Num 200"]
  by (simp add: num_sub_def f64_sub_def)

text \<open>
  C10 in double precision: the two sums are rounded before the call. For the price 1,
  the down payment 0 and the shift \<open>2 ^ 53\<close> the sum \<open>1 + 2 ^ 53\<close> is a tie and rounds
  to \<open>2 ^ 53\<close>, the shifted difference is 0 and the shifted call returns 0, while the
  call that is not shifted returns the double nearest to \<open>1 / 180\<close> (rate 0, term 15).
\<close>

theorem shift_double_counterexample:
  "f64_add (Num 1) (Num (2 ^ 53)) = Num (2 ^ 53)
    \<and> f64_add (Num 0) (Num (2 ^ 53)) = Num (2 ^ 53)
    \<and> calculateMonthlyPrincipalAndInterest64 (f64_add (Num 1) (Num (2 ^ 53)))
        (f64_add (Num 0) (Num (2 ^ 53))) (Num 0) (Num 15) = Num 0
    \<and> calculateMonthlyPrincipalAndInterest64 (Num 1) (Num 0) (Num 0) (Num 15)
      = Num (6405119470038039 / 2 ^ 60)
    \<and> calculateMonthlyPrincipalAndInterest64 (f64_add (Num 1) (Num (2 ^ 53)))
        (f64_add (Num 0) (Num (2 ^ 53))) (Num 0) (Num 15)
      \<noteq> calculateMonthlyPrincipalAndInterest64 (Num 1) (Num 0) (Num 0) (Num 15)"
proof -
  have a: "f64_add (Num 1) (Num (2 ^ 53)) = Num (2 ^ 53)"
    using round64_pow53_plus_1 by (simp add: f64_add_def add.commute)
  have b: "f64_add (Num 0) (Num (2 ^ 53)) = Num (2 ^ 53)"
    using round64_pow53 by (simp add: f64_add_def)
  have c: "calculateMonthlyPrincipalAndInterest64 (Num (2 ^ 53)) (Num (2 ^ 53)) (Num 0) (Num 15)
      = Num 0"
    using calc64_shifted unfolding a b .
  show ?thesis
    unfolding a b c calc64_unshifted by simp
qed

section \<open>Selecting a loan term\<close>

lemma find_LOAN_TERMS:
  "find (\<lambda>t. strict_eq (years t) v) LOAN_TERMS =
    (if v = Num 15 then Some \<lparr>label = ''15 years (fix)'', years = Num 15\<rparr>
     else if v = Num 20 then Some \<lparr>label = ''20 years (fix)'', years = Num 20\<rparr>
     else if v = Num 30 then Some \<lparr>label = ''30 years (fix)'', years = Num 30\<rparr>
     else None)"
  by (auto simp add: LOAN_TERMS_def strict_eq_def)

text \<open>
  C8: the options of \<open>LOAN_TERMS\<close> are those of 15, 20 and 30 years. When the
  handler receives a number that is the \<open>years\<close> of an option, the term becomes
  that option; for every other number (NaN too) it becomes \<open>DEFAULT_TERM\<close>, the
  20-year option. The other fields of the state stay as they were.
\<close>

theorem term_selection:
  "(\<forall>t \<in> set LOAN_TERMS. years t = v \<longrightarrow> term' (onTermChange v s) = t)
    \<and> ((\<forall>t \<in> set LOAN_TERMS. years t \<noteq> v) \<longrightarrow> term' (onTermChange v s) = DEFAULT_TERM)
    \<and> map years LOAN_TERMS = [Num 15, Num 20, Num 30]
    \<and> DEFAULT_TERM = \<lparr>label = ''20 years (fix)'', years = Num 20\<rparr>
    \<and> purchasePrice (onTermChange v s) = purchasePrice s
    \<and> downPayment (onTermChange v s) = downPayment s
    \<and> rate (onTermChange v s) = rate s"
proof -
  have sel: "\<forall>t \<in> set LOAN_TERMS. years t = v \<longrightarrow> term' (onTermChange v s) = t"
    by (auto simp add: onTermChange_def find_LOAN_TERMS) (auto simp add: LOAN_TERMS_def)
  have dflt: "(\<forall>t \<in> set LOAN_TERMS. years t \<noteq> v) \<longrightarrow> term' (onTermChange v s) = DEFAULT_TERM"
    by (auto simp add: onTermChange_def find_LOAN_TERMS) (auto simp add: LOAN_TERMS_def)
  have rest: "map years LOAN_TERMS = [Num 15, Num 20, Num 30]"
    "DEFAULT_TERM = \<lparr>label = ''20 years (fix)'', years = Num 20\<rparr>"
    by (simp_all add: LOAN_TERMS_def DEFAULT_TERM_def)
  have same: "purchasePrice (onTermChange v s) = purchasePrice s"
    "downPayment (onTermChange v s) = downPayment s" "rate (onTermChange v s) = rate s"
    by (simp_all add: onTermChange_def)
  show ?thesis using sel dflt rest same by blast
qed

theorem term_selection_witness:
  "\<lparr>label = ''30 years (fix)'', years = Num 30\<rparr> \<in> set LOAN_TERMS
    \<and> term' (onTermChange (Num 30) initialState) = \<lparr>label = ''30 years (fix)'', years = Num 30\<rparr>
    \<and> Num 25 \<notin> set (map years LOAN_TERMS)
    \<and> term' (onTermChange (Num 25) initialState) = \<lparr>label = ''20 years (fix)'', years = Num 20\<rparr>"
  using term_selection [of "Num 30" initialState] term_selection [of "Num 25" initialState]
  by (simp add: LOAN_TERMS_def)

section \<open>Monotonicity\<close>






lemma discount_pos:
  fixes n :: real
  assumes "0 < r" "0 < n"
  shows "0 < (1 - (1 + r) powr (- n)) / r"
proof -
  have "(1 + r) powr (- n) < 1"
    using assms by (simp add: powr_less_one)
  then show ?thesis using assms by simp
qed


lemma factor_discount:
  fixes n :: real
  assumes "0 < r" "0 < n"
  shows "r * (1 + r) powr n / ((1 + r) powr n - 1) = 1 / ((1 - (1 + r) powr (- n)) / r)"
proof -
  have "(1 + r) powr (- n) = 1 / (1 + r) powr n"
    using assms by (simp add: powr_minus_divide)
  moreover have "1 < (1 + r) powr n" using assms by simp
  ultimately show ?thesis using assms
    by (simp add: field_simps)
qed


lemma factor_pos:
  fixes n :: real
  assumes "0 < r" "0 < n"
  shows "0 < r * (1 + r) powr n / ((1 + r) powr n - 1)"
proof -
  have "0 < 1 / ((1 - (1 + r) powr (- n)) / r)"
    by (rule divide_pos_pos [OF zero_less_one discount_pos [OF assms]])
  then show ?thesis by (simp only: factor_discount [OF assms])
qed



lemma calc_monotone_loan:
  fixes y :: real
  assumes "0 \<le> a" "0 < y" "max (p1 - d1) 0 \<le> max (p2 - d2) 0"
  shows "\<exists>v1 v2. calculateMonthlyPrincipalAndInterest (Num p1) (Num d1) (Num a) (Num y) = Num v1
    \<and> calculateMonthlyPrincipalAndInterest (Num p2) (Num d2) (Num a) (Num y) = Num v2
    \<and> v1 \<le> v2"
proof -
  let ?c = "if a = 0 then 1 / (y * 12)
         else a / 100 / 12 * (1 + a / 100 / 12) powr (y * 12)
           / ((1 + a / 100 / 12) powr (y * 12) - 1)"
  have y: "y \<noteq> 0" using assms(2) by simp
  have c: "0 \<le> ?c"
  proof (cases "a = 0")
    case True
    then show ?thesis using assms(2) by simp
  next
    case False
    then have "0 < a / 100 / 12" "0 < y * 12" using assms by simp_all
    then have "0 < a / 100 / 12 * (1 + a / 100 / 12) powr (y * 12)
           / ((1 + a / 100 / 12) powr (y * 12) - 1)" by (rule factor_pos)
    then show ?thesis using False by simp
  qed
  have "max (p1 - d1) 0 * ?c \<le> max (p2 - d2) 0 * ?c"
    using assms(3) c by (rule mult_right_mono)
  then show ?thesis
    using calc_value [OF assms(1) y, of p1 d1] calc_value [OF assms(1) y, of p2 d2] by blast
qed





section \<open>Sign of the result\<close>

text \<open>
  C9: for every finite price and down payment, every annual rate \<open>a \<ge> 0\<close> and every
  term of a positive whole number of years, the result is never a negative number. In
  exact arithmetic it is a finite number that is at least 0. In double precision it is
  a number that is at least 0, \<open>+Infinity\<close>, or NaN.
\<close>

theorem payment_nonnegative:
  assumes "0 \<le> a" "0 < k"
  shows "(\<exists>v. calculateMonthlyPrincipalAndInterest (Num p) (Num d) (Num a) (Num (real k)) = Num v
      \<and> 0 \<le> v)
    \<and> (calculateMonthlyPrincipalAndInterest64 (Num p) (Num d) (Num a) (Num (real k)) = NaN
      \<or> num_le (Num 0)
          (calculateMonthlyPrincipalAndInterest64 (Num p) (Num d) (Num a) (Num (real k))))"
proof -
  have y: "0 < real k" using assms(2) by simp
  have "max (p - d) 0 \<le> max (p - d) 0" by simp
  from calc_monotone_loan [OF assms(1) y, of d d p d]
  obtain v1 v2 where
    "calculateMonthlyPrincipalAndInterest (Num d) (Num d) (Num a) (Num (real k)) = Num v1"
    "calculateMonthlyPrincipalAndInterest (Num p) (Num d) (Num a) (Num (real k)) = Num v2"
    "v1 \<le> v2" by auto
  then have "\<exists>v. calculateMonthlyPrincipalAndInterest (Num p) (Num d) (Num a) (Num (real k)) = Num v
      \<and> 0 \<le> v"
    by (auto simp add: calc_zero_loan)
  then show ?thesis using calc64_never_negative [OF assms, of p d] by blast
qed

theorem payment_nonnegative_witness:
  "(0::real) \<le> 1200 \<and> (0::nat) < 30
    \<and> (\<exists>v. calculateMonthlyPrincipalAndInterest (Num 100000) (Num 0) (Num 1200) (Num (real 30)) = Num v
        \<and> 0 \<le> v)
    \<and> num_le (Num 0)
        (calculateMonthlyPrincipalAndInterest64 (Num 100000) (Num 0) (Num 1200) (Num (real 30)))"
  using payment_nonnegative [of 1200 30 100000 0] calc64_rate_1200 by simp

text \<open>
  C9 in double precision: at the price 100000, the down payment 0, the rate 7500 and the
  term 30 the calculator returns NaN, and \<open>0 <= NaN\<close> is false.
\<close>

theorem nonnegative_double_counterexample:
  "(0::real) \<le> 7500 \<and> (0::nat) < 30
    \<and> calculateMonthlyPrincipalAndInterest64 (Num 100000) (Num 0) (Num 7500) (Num (real 30)) = NaN
    \<and> \<not> num_le (Num 0)
        (calculateMonthlyPrincipalAndInterest64 (Num 100000) (Num 0) (Num 7500) (Num (real 30)))"
  using calc64_rate_7500 by simp

section \<open>Divisors\<close>




section \<open>The default scenario\<close>

text \<open>
  Bounds on \<open>(1 + monthlyRate) ^ 240\<close> for the rate of the scenario, by an addition
  chain on the exponent and rational bounds at each step.
\<close>

lemma power_add_upper:
  fixes x :: real
  assumes "0 \<le> x" "x ^ j \<le> u" "x ^ k \<le> w" "u * w \<le> v" "n = j + k"
  shows "x ^ n \<le> v"
proof -
  have "x ^ n = x ^ j * x ^ k" by (simp add: power_add assms(5))
  also have "\<dots> \<le> u * w"
    using assms by (intro mult_mono) (auto intro: order_trans [of 0 "x ^ j" u])
  finally show ?thesis using assms(4) by simp
qed

lemma power_add_lower:
  fixes x :: real
  assumes "u \<le> x ^ j" "w \<le> x ^ k" "0 \<le> u" "0 \<le> w" "v \<le> u * w" "n = j + k"
  shows "v \<le> x ^ n"
proof -
  have "u * w \<le> x ^ j * x ^ k"
    using assms by (intro mult_mono) auto
  then show ?thesis using assms(5) by (simp add: power_add assms(6))
qed

lemma Q_upper: "(150533 / 150000 :: real) ^ 240 \<le> 2342663523 / 1000000000"
proof -
  let ?q = "150533 / 150000 :: real"
  have q0: "0 \<le> ?q" by simp
  have b1: "?q ^ 1 \<le> 150533 / 150000" by simp
  have b2: "?q ^ 2 \<le> 1007119293 / 1000000000"
    by (rule power_add_upper [OF q0 b1 b1]) simp_all
  have b4: "?q ^ 4 \<le> 1014289271 / 1000000000"
    by (rule power_add_upper [OF q0 b2 b2]) simp_all
  have b8: "?q ^ 8 \<le> 514391363 / 500000000"
    by (rule power_add_upper [OF q0 b4 b4]) simp_all
  have b12: "?q ^ 12 \<le> 521741641 / 500000000"
    by (rule power_add_upper [OF q0 b8 b4]) simp_all
  have b14: "?q ^ 14 \<le> 525456073 / 500000000"
    by (rule power_add_upper [OF q0 b12 b2]) simp_all
  have b15: "?q ^ 15 \<le> 263661597 / 250000000"
    by (rule power_add_upper [OF q0 b14 b1]) simp_all
  have b30: "?q ^ 30 \<le> 278069751 / 250000000"
    by (rule power_add_upper [OF q0 b15 b15]) simp_all
  have b60: "?q ^ 60 \<le> 1237164583 / 1000000000"
    by (rule power_add_upper [OF q0 b30 b30]) simp_all
  have b120: "?q ^ 120 \<le> 765288103 / 500000000"
    by (rule power_add_upper [OF q0 b60 b60]) simp_all
  show ?thesis
    by (rule power_add_upper [OF q0 b120 b120]) simp_all
qed

lemma Q_lower: "1171331487 / 500000000 \<le> (150533 / 150000 :: real) ^ 240"
proof -
  let ?q = "150533 / 150000 :: real"
  have b1: "150533 / 150000 \<le> ?q ^ 1" by simp
  have b2: "251779823 / 250000000 \<le> ?q ^ 2"
    by (rule power_add_lower [OF b1 b1]) simp_all
  have b4: "253572317 / 250000000 \<le> ?q ^ 4"
    by (rule power_add_lower [OF b2 b2]) simp_all
  have b8: "1028782719 / 1000000000 \<le> ?q ^ 8"
    by (rule power_add_lower [OF b4 b4]) simp_all
  have b12: "104348327 / 100000000 \<le> ?q ^ 12"
    by (rule power_add_lower [OF b8 b4]) simp_all
  have b14: "262728033 / 250000000 \<le> ?q ^ 14"
    by (rule power_add_lower [OF b12 b2]) simp_all
  have b15: "1054646373 / 1000000000 \<le> ?q ^ 15"
    by (rule power_add_lower [OF b14 b1]) simp_all
  have b30: "278069743 / 250000000 \<le> ?q ^ 30"
    by (rule power_add_lower [OF b15 b15]) simp_all
  have b60: "1237164511 / 1000000000 \<le> ?q ^ 60"
    by (rule power_add_lower [OF b30 b30]) simp_all
  have b120: "1530576027 / 1000000000 \<le> ?q ^ 120"
    by (rule power_add_lower [OF b60 b60]) simp_all
  show ?thesis
    by (rule power_add_lower [OF b120 b120]) simp_all
qed


lemma scenario_bounds:
  fixes Q :: real
  assumes "1171331487 / 500000000 \<le> Q" "Q \<le> 2342663523 / 1000000000"
  shows "6000 \<le> 967998 * (4264 / 1000 / 100 / 12 * Q / (Q - 1))"
    and "967998 * (4264 / 1000 / 100 / 12 * Q / (Q - 1)) \<le> 6100"
  using assms by (simp_all add: field_simps)

text \<open>
  C7: for the purchase price 990000, the down payment 22002, the rate 4.264 and the term
  20, the loan amount is 967998, the installment count is 240, and the calculator
  returns a finite value between 6000 and 6100.
\<close>

theorem default_scenario:
  "loanAmount (Num 990000) (Num 22002) = Num 967998
    \<and> installments (Num 20) = Num 240
    \<and> (\<exists>v. calculateMonthlyPrincipalAndInterest (Num 990000) (Num 22002) (Num (4264 / 1000)) (Num 20)
          = Num v \<and> 6000 \<le> v \<and> v \<le> 6100)"
proof -
  let ?Q = "(1 + 4264 / 1000 / 100 / 12 :: real) ^ (20 * 12)"
  have q: "(1 + 4264 / 1000 / 100 / 12 :: real) = 150533 / 150000" by simp
  have Q: "?Q = (150533 / 150000) ^ 240" by (simp only: q) simp
  have lo: "1171331487 / 500000000 \<le> ?Q" and hi: "?Q \<le> 2342663523 / 1000000000"
    unfolding Q by (rule Q_lower, rule Q_upper)
  have "calculateMonthlyPrincipalAndInterest (Num 990000) (Num 22002) (Num (4264 / 1000)) (Num (real 20))
      = Num ((990000 - 22002) * (4264 / 1000 / 100 / 12 * ?Q / (?Q - 1)))"
    by (rule calc_positive_rate_nat) simp_all
  then have "calculateMonthlyPrincipalAndInterest (Num 990000) (Num 22002) (Num (4264 / 1000)) (Num 20)
      = Num (967998 * (4264 / 1000 / 100 / 12 * ?Q / (?Q - 1)))"
    by simp
  moreover note scenario_bounds [OF lo hi]
  moreover have "loanAmount (Num 990000) (Num 22002) = Num 967998"
    by (simp add: loanAmount_Num)
  moreover have "installments (Num 20) = Num 240"
    by (simp add: installments_Num)
  ultimately show ?thesis by blast
qed


end
